theory Spec2Isabelle
  imports Complex_Main "HOL-Library.AList"
begin

section \<open>Values decoded from the bus\<close>

text \<open>
  \<^verbatim>\<open>server.js\<close> hands every bus message to \<^verbatim>\<open>JSON.parse\<close> and destructures the result.
  A parsed value is a \<open>json\<close>; a property that is absent reads as \<^verbatim>\<open>undefined\<close>, which is
  \<open>None\<close> of \<open>jsval\<close>. A number is the exact value of the double that was parsed; JSON has
  no NaN. The only arithmetic on it is \<^verbatim>\<open>dTS * 1000\<close>, whose result is rounded to a double as
  the engine rounds it. A literal beyond the doubles parses to an infinity and has no Date,
  as any number beyond the range of Date has none.
\<close>

datatype json =
    JNull
  | JBool bool
  | JNum rat
  | JStr string
  | JArr "json list"
  | JObj "(string \<times> json) list"

type_synonym jsval = "json option"

text \<open>The exceptions the handlers can raise.\<close>

datatype error = TypeError | RangeError

text \<open>The text that \<^verbatim>\<open>toISOString\<close> prints, named by the time value (milliseconds) it renders.\<close>

datatype isotime = ISO int

text \<open>
  What the JavaScript engine and the MQTT library decide, and the repository does not:
  the number a string, array or object converts to (\<open>None\<close> is NaN or an infinity),
  whether an array or object converts to a string without raising, and the message of the
  error that \<^verbatim>\<open>mqtt.connect\<close> raises on a broker URL it refuses.
\<close>

record runtime =
  ToNumber_other :: "json \<Rightarrow> error + rat option"
  ToString_ok :: "json \<Rightarrow> bool"
  mqtt_connect :: "string \<Rightarrow> string option"

text \<open>
  Property access \<^verbatim>\<open>payload.k\<close> on a parsed value other than \<^verbatim>\<open>null\<close>, for the six names the
  handlers read, none of which a prototype defines. \<open>JObj\<close> lists an object's own properties,
  each name once.
\<close>

fun property :: "json \<Rightarrow> string \<Rightarrow> jsval" where
  "property (JObj kvs) k = map_of kvs k"
| "property _ k = None"

text \<open>Truthiness, as \<^verbatim>\<open>!x\<close> and \<^verbatim>\<open>x || y\<close> test it.\<close>

fun truthy :: "jsval \<Rightarrow> bool" where
  "truthy None = False"
| "truthy (Some JNull) = False"
| "truthy (Some (JBool b)) = b"
| "truthy (Some (JNum n)) = (n \<noteq> 0)"
| "truthy (Some (JStr s)) = (s \<noteq> [])"
| "truthy (Some (JArr xs)) = True"
| "truthy (Some (JObj kvs)) = True"

fun ToNumber :: "runtime \<Rightarrow> jsval \<Rightarrow> error + rat option" where
  "ToNumber rt None = Inr None"
| "ToNumber rt (Some JNull) = Inr (Some 0)"
| "ToNumber rt (Some (JBool b)) = Inr (Some (if b then 1 else 0))"
| "ToNumber rt (Some (JNum n)) = Inr (Some n)"
| "ToNumber rt (Some v) = ToNumber_other rt v"

text \<open>
  \<^verbatim>\<open>dTS * 1000\<close> is the double nearest to the exact product, ties going to the even
  neighbour. For a positive \<open>x\<close> below \<open>2^53\<close> and not below one half, \<open>round53 53 x\<close> is that
  double: \<open>x\<close> is doubled until it has 53 binary digits before the point, rounded to a whole
  number, and halved back as often.
\<close>

definition round_half_even :: "rat \<Rightarrow> int" where
  "round_half_even x =
     (let f = \<lfloor>x\<rfloor>; d = x - of_int f
      in if d < 1 / 2 then f else if 1 / 2 < d then f + 1 else if even f then f else f + 1)"

primrec round53 :: "nat \<Rightarrow> rat \<Rightarrow> rat" where
  "round53 0 x = of_int (round_half_even x)"
| "round53 (Suc n) x =
     (if 2 ^ 52 \<le> x then of_int (round_half_even x) else round53 n (2 * x) / 2)"

text \<open>
  The time value of \<^verbatim>\<open>new Date(n * 1000)\<close>, from the exact product \<open>x\<close>: the rounded product
  truncated towards zero, or NaN (\<open>None\<close>) when it lies beyond \<open>\<plusminus>8.64e15\<close> ms. A product of
  \<open>2^53\<close> or more stays beyond that range however it is rounded, and one below one half
  rounds to less than 1, which truncates to 0.
\<close>

definition time_value :: "rat \<Rightarrow> int option" where
  "time_value x =
     (if 2 ^ 53 \<le> \<bar>x\<bar> then None
      else if \<bar>x\<bar> < 1 / 2 then Some 0
      else
        let r = round53 53 \<bar>x\<bar>
        in if 8640000000000000 < r then None
           else Some (if x < 0 then - \<lfloor>r\<rfloor> else \<lfloor>r\<rfloor>))"

definition toISOString :: "int option \<Rightarrow> error + isotime" where
  "toISOString tv = (case tv of None \<Rightarrow> Inl RangeError | Some ms \<Rightarrow> Inr (ISO ms))"

text \<open>\<^verbatim>\<open>new Date(dTS * 1000).toISOString()\<close>; a \<^verbatim>\<open>dTS\<close> that is no number gives NaN.\<close>

definition date_of_seconds :: "runtime \<Rightarrow> jsval \<Rightarrow> error + isotime" where
  "date_of_seconds rt dTS =
     (case ToNumber rt dTS of
        Inl e \<Rightarrow> Inl e
      | Inr None \<Rightarrow> toISOString None
      | Inr (Some n) \<Rightarrow> toISOString (time_value (n * 1000)))"

text \<open>\<^verbatim>\<open>v.toFixed(4)\<close> is a method of numbers only; on anything else the call raises TypeError.\<close>

fun toFixed_ok :: "jsval \<Rightarrow> bool" where
  "toFixed_ok (Some (JNum n)) = True"
| "toFixed_ok _ = False"

text \<open>\<^verbatim>\<open>${v}\<close> in a template literal: primitives always print.\<close>

fun template_ok :: "runtime \<Rightarrow> jsval \<Rightarrow> bool" where
  "template_ok rt (Some (JArr xs)) = ToString_ok rt (JArr xs)"
| "template_ok rt (Some (JObj kvs)) = ToString_ok rt (JObj kvs)"
| "template_ok rt _ = True"

section \<open>The state object\<close>

record device =
  deviceId :: jsval
  latitude :: jsval
  longitude :: jsval
  timestamp :: jsval
  lastUpdate :: isotime
  raw :: json

record scan =
  scan_deviceId :: jsval
  tagUID :: jsval
  message :: jsval
  scan_latitude :: jsval
  scan_longitude :: jsval
  scan_timestamp :: jsval
  scannedAt :: isotime
  rawPayload :: json

record topics =
  brokerUrl :: string
  gpsTopic :: string
  rfidTopic :: string

record config = topics +
  clientId :: string

record conn = topics +
  client :: nat
  connectedAt :: int

text \<open>
  A JavaScript \<^verbatim>\<open>Map\<close> is its entries in insertion order; \<^verbatim>\<open>set\<close> on a key that is present
  replaces the value where it stands (\<open>AList.update\<close>), \<^verbatim>\<open>size\<close> is the number of entries.
\<close>

record state =
  devices :: "(jsval \<times> device) list"
  rfidScans :: "scan list"
  mqttConnections :: "(string \<times> conn) list"
  maxRFIDHistory :: nat

definition state0 :: state where
  "state0 = \<lparr>devices = [], rfidScans = [], mqttConnections = [], maxRFIDHistory = 100\<rparr>"

text \<open>
  Keys of \<open>devices\<close> are compared by SameValueZero: primitives by value, arrays and
  objects by identity. Every payload is a fresh result of \<^verbatim>\<open>JSON.parse\<close>, so an array or
  object \<^verbatim>\<open>dID\<close> is never found and always adds an entry.
\<close>

fun is_reference :: "jsval \<Rightarrow> bool" where
  "is_reference (Some (JArr xs)) = True"
| "is_reference (Some (JObj kvs)) = True"
| "is_reference _ = False"

definition devices_get :: "(jsval \<times> device) list \<Rightarrow> jsval \<Rightarrow> device option" where
  "devices_get m k = (if is_reference k then None else map_of m k)"

definition devices_set ::
  "(jsval \<times> device) list \<Rightarrow> jsval \<Rightarrow> device \<Rightarrow> (jsval \<times> device) list" where
  "devices_set m k v = (if is_reference k then m @ [(k, v)] else AList.update k v m)"

section \<open>Events pushed to viewers\<close>

datatype status = connected | error string | offline

datatype event =
    initial_state "device list" "scan list" isotime
  | gps_update jsval jsval jsval jsval isotime json
  | rfid_scan scan
  | mqtt_connected
  | mqtt_status status
  | mqtt_error string

section \<open>Message handlers\<close>

text \<open>
  A handler call ends in one of three ways: it returns after its last statement, it
  returns at the validation guard after the warning, or a statement raises. What it did to
  the state and what it passed to \<^verbatim>\<open>io.emit\<close> before that stays done.
\<close>

datatype outcome = Returned | Rejected | Threw error

record hres =
  st :: state
  emitted :: "event list"
  outcome :: outcome

text \<open>
  When \<^verbatim>\<open>toISOString\<close> raises, the four assignments before it have already been made: to
  a fresh object that is then dropped, or to the object the map holds, which keeps them.
\<close>

definition handleGPSMessage :: "runtime \<Rightarrow> json \<Rightarrow> state \<Rightarrow> hres" where
  "handleGPSMessage rt payload s =
     (if payload = JNull then \<lparr>st = s, emitted = [], outcome = Threw TypeError\<rparr>
      else
        let dID = property payload ''dID''; dTS = property payload ''dTS'';
            lat = property payload ''lat''; lon = property payload ''lon''
        in
          if \<not> truthy dID \<or> lat = None \<or> lon = None
          then \<lparr>st = s, emitted = [], outcome = Rejected\<rparr>
          else
            (case date_of_seconds rt dTS of
               Inl e \<Rightarrow>
                 \<lparr>st = (case devices_get (devices s) dID of
                          None \<Rightarrow> s
                        | Some old \<Rightarrow>
                            s\<lparr>devices := AList.update dID
                                (old\<lparr>deviceId := dID, latitude := lat, longitude := lon,
                                     timestamp := dTS\<rparr>) (devices s)\<rparr>),
                  emitted = [], outcome = Threw e\<rparr>
             | Inr stamp \<Rightarrow>
                 \<lparr>st = s\<lparr>devices := devices_set (devices s) dID
                            \<lparr>deviceId = dID, latitude = lat, longitude = lon,
                             timestamp = dTS, lastUpdate = stamp, raw = payload\<rparr>\<rparr>,
                  emitted = [gps_update dID lat lon dTS stamp payload],
                  outcome =
                    (if template_ok rt dID \<and> toFixed_ok lat \<and> toFixed_ok lon
                     then Returned else Threw TypeError)\<rparr>))"

text \<open>The object literal \<^verbatim>\<open>scanData\<close>; building it raises when \<^verbatim>\<open>toISOString\<close> does.\<close>

definition scanData :: "runtime \<Rightarrow> json \<Rightarrow> error + scan" where
  "scanData rt payload =
     (case date_of_seconds rt (property payload ''dTS'') of
        Inl e \<Rightarrow> Inl e
      | Inr stamp \<Rightarrow>
          Inr \<lparr>scan_deviceId = property payload ''dID'', tagUID = property payload ''uID'',
               message = (if truthy (property payload ''msg'') then property payload ''msg''
                          else Some (JStr ''N/A'')),
               scan_latitude = property payload ''lat'',
               scan_longitude = property payload ''lon'',
               scan_timestamp = property payload ''dTS'',
               scannedAt = stamp, rawPayload = payload\<rparr>)"

text \<open>\<^verbatim>\<open>unshift\<close> then, over the limit, \<^verbatim>\<open>pop\<close>.\<close>

definition unshift_capped :: "nat \<Rightarrow> scan \<Rightarrow> scan list \<Rightarrow> scan list" where
  "unshift_capped h x xs = (if length (x # xs) > h then butlast (x # xs) else x # xs)"

definition handleRFIDMessage :: "runtime \<Rightarrow> json \<Rightarrow> state \<Rightarrow> hres" where
  "handleRFIDMessage rt payload s =
     (if payload = JNull then \<lparr>st = s, emitted = [], outcome = Threw TypeError\<rparr>
      else
        let dID = property payload ''dID''; uID = property payload ''uID'';
            lat = property payload ''lat''; lon = property payload ''lon''
        in
          if \<not> truthy dID \<or> \<not> truthy uID \<or> lat = None \<or> lon = None
          then \<lparr>st = s, emitted = [], outcome = Rejected\<rparr>
          else
            (case scanData rt payload of
               Inl e \<Rightarrow> \<lparr>st = s, emitted = [], outcome = Threw e\<rparr>
             | Inr x \<Rightarrow>
                 \<lparr>st = s\<lparr>rfidScans := unshift_capped (maxRFIDHistory s) x (rfidScans s)\<rparr>,
                  emitted = [rfid_scan x],
                  outcome =
                    (if template_ok rt dID \<and> template_ok rt uID \<and> toFixed_ok lat \<and> toFixed_ok lon
                     then Returned else Threw TypeError)\<rparr>))"

text \<open>Applying a sequence of payloads, one handler call after the other.\<close>

definition applyGPS :: "runtime \<Rightarrow> state \<Rightarrow> json list \<Rightarrow> state" where
  "applyGPS rt s ps = foldl (\<lambda>s p. st (handleGPSMessage rt p s)) s ps"

definition applyRFID :: "runtime \<Rightarrow> state \<Rightarrow> json list \<Rightarrow> state" where
  "applyRFID rt s ps = foldl (\<lambda>s p. st (handleRFIDMessage rt p s)) s ps"

section \<open>The server: sockets, bus clients and their callbacks\<close>

text \<open>
  Node runs one callback at a time, so the server is a function from its state and one
  input to the next state. Beside the state object the process holds the sockets that
  socket.io has connected and the clients that \<^verbatim>\<open>mqtt.connect\<close> has created. A client is
  known by its position in \<open>clients\<close> and keeps the variables its callbacks close over: the
  requesting socket and the fields of the request, taken as the strings the dashboard
  sends. Nothing in the server ends a client before the process is told to terminate, so
  \<open>clients\<close> only grows. \<open>log\<close> lists, in order, every event handed to socket.io, as it was
  when handed over, with the sockets it went to: all connected ones for \<^verbatim>\<open>io.emit\<close>, the
  one socket (if still connected) for \<^verbatim>\<open>socket.emit\<close>.
\<close>

record mqttClient = config +
  socket :: nat

record world =
  state :: state
  sockets :: "nat list"
  clients :: "mqttClient list"
  log :: "(nat list \<times> event) list"

definition world0 :: world where
  "world0 = \<lparr>state = state0, sockets = [], clients = [], log = []\<rparr>"

definition io_emit :: "event \<Rightarrow> world \<Rightarrow> world" where
  "io_emit e w = w\<lparr>log := log w @ [(sockets w, e)]\<rparr>"

definition socket_emit :: "nat \<Rightarrow> event \<Rightarrow> world \<Rightarrow> world" where
  "socket_emit sid e w = w\<lparr>log := log w @ [(if sid \<in> set (sockets w) then [sid] else [], e)]\<rparr>"


text \<open>\<^verbatim>\<open>io.on('connection', ...)\<close>: the socket is connected, then sent the initial state.\<close>

definition on_connection :: "int \<Rightarrow> nat \<Rightarrow> world \<Rightarrow> world" where
  "on_connection now sid w =
     socket_emit sid
       (initial_state (map snd (devices (state w))) (rfidScans (state w)) (ISO now))
       (w\<lparr>sockets := sockets w @ [sid]\<rparr>)"

text \<open>
  \<^verbatim>\<open>socket.on('connect_mqtt', ...)\<close>: a new client is created and stored under
  \<^verbatim>\<open>clientId\<close>; if \<^verbatim>\<open>mqtt.connect\<close> raises, the socket is told and nothing is stored.
\<close>

definition connect_mqtt :: "runtime \<Rightarrow> int \<Rightarrow> nat \<Rightarrow> config \<Rightarrow> world \<Rightarrow> world" where
  "connect_mqtt rt now sid cfg w =
     (case mqtt_connect rt (brokerUrl cfg) of
        Some err \<Rightarrow> socket_emit sid (mqtt_error err) w
      | None \<Rightarrow>
          w\<lparr>clients := clients w @
               [\<lparr>brokerUrl = brokerUrl cfg, gpsTopic = gpsTopic cfg, rfidTopic = rfidTopic cfg,
                 clientId = clientId cfg, socket = sid\<rparr>],
            state := (state w)\<lparr>mqttConnections :=
               AList.update (clientId cfg)
                 \<lparr>brokerUrl = brokerUrl cfg, gpsTopic = gpsTopic cfg, rfidTopic = rfidTopic cfg,
                  client = length (clients w), connectedAt = now\<rparr>
                 (mqttConnections (state w))\<rparr>\<rparr>)"

text \<open>\<^verbatim>\<open>mqttClient.on('connect', ...)\<close>, with the outcome of the subscription.\<close>

definition on_connect :: "mqttClient \<Rightarrow> bool \<Rightarrow> world \<Rightarrow> world" where
  "on_connect cl subscribe_err w =
     (if subscribe_err then w
      else io_emit (mqtt_status connected) (socket_emit (socket cl) mqtt_connected w))"

text \<open>
  \<^verbatim>\<open>mqttClient.on('message', ...)\<close>: \<open>None\<close> is a message that \<^verbatim>\<open>JSON.parse\<close> refuses. Whatever
  a handler raises is caught and logged here; its emissions and state changes stay.
\<close>

definition finish :: "hres \<Rightarrow> world \<Rightarrow> world" where
  "finish r w = fold io_emit (emitted r) (w\<lparr>state := st r\<rparr>)"

definition on_message :: "runtime \<Rightarrow> mqttClient \<Rightarrow> string \<Rightarrow> json option \<Rightarrow> world \<Rightarrow> world" where
  "on_message rt cl topic parsed w =
     (case parsed of
        None \<Rightarrow> w
      | Some payload \<Rightarrow>
          if topic = gpsTopic cl then finish (handleGPSMessage rt payload (state w)) w
          else if topic = rfidTopic cl then finish (handleRFIDMessage rt payload (state w)) w
          else w)"

definition on_error :: "mqttClient \<Rightarrow> string \<Rightarrow> world \<Rightarrow> world" where
  "on_error cl msg w =
     io_emit (mqtt_status (error msg)) (socket_emit (socket cl) (mqtt_error msg) w)"

definition on_offline :: "world \<Rightarrow> world" where
  "on_offline w = io_emit (mqtt_status offline) w"

definition on_close :: "mqttClient \<Rightarrow> world \<Rightarrow> world" where
  "on_close cl w =
     w\<lparr>state := (state w)\<lparr>mqttConnections :=
         AList.delete (clientId cl) (mqttConnections (state w))\<rparr>\<rparr>"

text \<open>
  What reaches the server from outside, each with the clock reading at that moment. Only a
  connected socket sends requests, and only a client that exists fires events.
\<close>

datatype input =
    Connection nat
  | Disconnect nat
  | ConnectMqtt nat config
  | OnConnect nat bool
  | OnMessage nat string "json option"
  | OnError nat string
  | OnOffline nat
  | OnClose nat

fun step :: "runtime \<Rightarrow> world \<Rightarrow> int \<times> input \<Rightarrow> world" where
  "step rt w (now, Connection sid) = on_connection now sid w"
| "step rt w (now, Disconnect sid) = w\<lparr>sockets := removeAll sid (sockets w)\<rparr>"
| "step rt w (now, ConnectMqtt sid cfg) =
     (if sid \<in> set (sockets w) then connect_mqtt rt now sid cfg w else w)"
| "step rt w (now, OnConnect h subscribe_err) =
     (if h < length (clients w) then on_connect (clients w ! h) subscribe_err w else w)"
| "step rt w (now, OnMessage h topic parsed) =
     (if h < length (clients w) then on_message rt (clients w ! h) topic parsed w else w)"
| "step rt w (now, OnError h msg) =
     (if h < length (clients w) then on_error (clients w ! h) msg w else w)"
| "step rt w (now, OnOffline h) = (if h < length (clients w) then on_offline w else w)"
| "step rt w (now, OnClose h) =
     (if h < length (clients w) then on_close (clients w ! h) w else w)"

definition run :: "runtime \<Rightarrow> world \<Rightarrow> (int \<times> input) list \<Rightarrow> world" where
  "run rt w tr = foldl (step rt) w tr"

text \<open>\<^verbatim>\<open>GET /api/stats\<close>\<close>

record stats =
  success :: bool
  activeDevices :: nat
  totalScans :: nat
  stats_mqttConnections :: nat
  stats_timestamp :: isotime

definition api_stats :: "int \<Rightarrow> state \<Rightarrow> stats" where
  "api_stats now s =
     \<lparr>success = True, activeDevices = length (devices s), totalScans = length (rfidScans s),
      stats_mqttConnections = length (mqttConnections s), stats_timestamp = ISO now\<rparr>"

section \<open>Packets as the documentation gives them\<close>

text \<open>
  The README and the MQTT reference give the two packet formats: \<^verbatim>\<open>dID\<close> (and, for a
  scan, \<^verbatim>\<open>uID\<close>) a non-empty string, \<^verbatim>\<open>lat\<close> and \<^verbatim>\<open>lon\<close> numbers, \<^verbatim>\<open>dTS\<close> a Unix time in
  seconds, \<^verbatim>\<open>msg\<close> optional. A valid packet is one of that shape whose time a Date can hold.
\<close>

fun nonempty_string :: "jsval \<Rightarrow> bool" where
  "nonempty_string (Some (JStr s)) = (s \<noteq> [])"
| "nonempty_string _ = False"

fun is_number :: "jsval \<Rightarrow> bool" where
  "is_number (Some (JNum n)) = True"
| "is_number _ = False"

fun is_timestamp :: "jsval \<Rightarrow> bool" where
  "is_timestamp (Some (JNum t)) = (\<bar>t * 1000\<bar> \<le> 8640000000000000)"
| "is_timestamp _ = False"

definition valid_gps :: "json \<Rightarrow> bool" where
  "valid_gps p \<longleftrightarrow>
     nonempty_string (property p ''dID'') \<and> is_number (property p ''lat'') \<and>
     is_number (property p ''lon'') \<and> is_timestamp (property p ''dTS'')"

definition valid_rfid :: "json \<Rightarrow> bool" where
  "valid_rfid p \<longleftrightarrow>
     nonempty_string (property p ''dID'') \<and> nonempty_string (property p ''uID'') \<and>
     is_number (property p ''lat'') \<and> is_number (property p ''lon'') \<and>
     is_timestamp (property p ''dTS'')"

text \<open>The packet applied last for a device id, and a stored record that carries a packet.\<close>

definition latest :: "jsval \<Rightarrow> json list \<Rightarrow> json option" where
  "latest d ps = List.find (\<lambda>p. property p ''dID'' = d) (rev ps)"

definition holds :: "device \<Rightarrow> json \<Rightarrow> bool" where
  "holds dev p \<longleftrightarrow>
     deviceId dev = property p ''dID'' \<and> latitude dev = property p ''lat'' \<and>
     longitude dev = property p ''lon'' \<and> timestamp dev = property p ''dTS'' \<and> raw dev = p"

text \<open>A logged scan that carries a packet: every field is the packet's, the message defaulted.\<close>

definition carries :: "runtime \<Rightarrow> scan \<Rightarrow> json \<Rightarrow> bool" where
  "carries rt x p \<longleftrightarrow>
     scan_deviceId x = property p ''dID'' \<and> tagUID x = property p ''uID'' \<and>
     message x = (if truthy (property p ''msg'') then property p ''msg'' else Some (JStr ''N/A'')) \<and>
     scan_latitude x = property p ''lat'' \<and> scan_longitude x = property p ''lon'' \<and>
     scan_timestamp x = property p ''dTS'' \<and>
     date_of_seconds rt (property p ''dTS'') = Inr (scannedAt x) \<and> rawPayload x = p"

text \<open>The values that \<^verbatim>\<open>!x\<close> takes for false, among those a parsed payload can hold.\<close>

definition falsy :: "jsval set" where
  "falsy = {None, Some JNull, Some (JBool False), Some (JNum 0), Some (JStr [])}"










text \<open>Every input but a bus message: viewers coming and going, and the life of a bus client.\<close>

fun lifecycle :: "input \<Rightarrow> bool" where
  "lifecycle (OnMessage h topic parsed) = False"
| "lifecycle _ = True"

text \<open>The statuses broadcast so far, in order.\<close>

definition statuses :: "world \<Rightarrow> status list" where
  "statuses w = [s. (rs, mqtt_status s) \<leftarrow> log w]"

section \<open>Concrete inputs\<close>

text \<open>
  An engine that converts no string, array or object to a number, prints all of them, and
  a library that accepts every broker URL; the packets are those of the README's examples.
\<close>

definition runtime0 :: runtime where
  "runtime0 = \<lparr>ToNumber_other = (\<lambda>v. Inr None), ToString_ok = (\<lambda>v. True),
               mqtt_connect = (\<lambda>url. None)\<rparr>"

definition rfid_packet :: "string \<Rightarrow> rat \<Rightarrow> json" where
  "rfid_packet tag t =
     JObj [(''dID'', JStr ''device_001''), (''uID'', JStr tag), (''msg'', JStr ''Package A''),
           (''lat'', JNum (129352 / 10000)), (''lon'', JNum (776245 / 10000)), (''dTS'', JNum t)]"

definition gps_packet :: "string \<Rightarrow> rat \<Rightarrow> rat \<Rightarrow> json" where
  "gps_packet d t la =
     JObj [(''dID'', JStr d), (''dTS'', JNum t), (''lat'', JNum la), (''lon'', JNum (776245 / 10000))]"

text \<open>Two devices; the second packet of \<^verbatim>\<open>device_001\<close> carries the older timestamp.\<close>

definition gps_example :: "json list" where
  "gps_example =
     [gps_packet ''device_001'' 1701266400 (129352 / 10000),
      gps_packet ''device_002'' 1701266401 (286139 / 10000),
      gps_packet ''device_001'' 1701266000 13]"

definition bad_coordinate :: json where
  "bad_coordinate =
     JObj [(''dID'', JStr ''device_001''), (''dTS'', JNum 1701266400),
           (''lat'', JStr ''north''), (''lon'', JNum (776245 / 10000))]"

definition missing_lat :: json where
  "missing_lat =
     JObj [(''dID'', JStr ''device_001''), (''uID'', JStr ''tag_001''), (''dTS'', JNum 1701266400),
           (''lon'', JNum (776245 / 10000))]"

definition missing_uID :: json where
  "missing_uID =
     JObj [(''dID'', JStr ''device_001''), (''dTS'', JNum 1701266400),
           (''lat'', JNum (129352 / 10000)), (''lon'', JNum (776245 / 10000))]"

definition missing_dTS :: json where
  "missing_dTS =
     JObj [(''dID'', JStr ''device_001''), (''uID'', JStr ''tag_001''),
           (''lat'', JNum 13), (''lon'', JNum (776245 / 10000))]"

definition zero_and_null :: json where
  "zero_and_null =
     JObj [(''dID'', JStr ''device_001''), (''uID'', JStr ''tag_001''), (''dTS'', JNum 1701266400),
           (''lat'', JNum 0), (''lon'', JNull)]"

definition broker_a :: config where
  "broker_a = \<lparr>brokerUrl = ''ws://localhost:8081'', gpsTopic = ''devices/gps'',
               rfidTopic = ''devices/rfid'', clientId = ''viewer_a''\<rparr>"

definition broker_b :: config where
  "broker_b = \<lparr>brokerUrl = ''ws://broker.example.com:8883'', gpsTopic = ''devices/gps'',
               rfidTopic = ''devices/rfid'', clientId = ''viewer_b''\<rparr>"

text \<open>A viewer connects the bus; one position and one scan arrive.\<close>

definition registry_example :: "(int \<times> input) list" where
  "registry_example =
     [(0, Connection 1), (1, ConnectMqtt 1 broker_a), (2, OnConnect 0 False),
      (3, OnMessage 0 ''devices/gps'' (Some (gps_packet ''device_001'' 1701266400 13))),
      (4, OnMessage 0 ''devices/rfid'' (Some (rfid_packet ''tag_001'' 1701266401)))]"

text \<open>The connection drops, comes back and fails; a second broker is connected.\<close>

definition lifecycle_example :: "(int \<times> input) list" where
  "lifecycle_example =
     [(5, OnOffline 0), (6, OnClose 0), (7, OnConnect 0 False), (8, OnError 0 ''ECONNRESET''),
      (9, ConnectMqtt 1 broker_b), (10, OnConnect 1 False), (11, Disconnect 1)]"

definition two_connects :: "(int \<times> input) list" where
  "two_connects = [(0, Connection 1), (1, ConnectMqtt 1 broker_a), (2, ConnectMqtt 1 broker_b)]"


text \<open>The scans \<^verbatim>\<open>tag_1\<close>, \<^verbatim>\<open>tag_2\<close>, ... of one device, one second apart.\<close>

fun digits :: "nat \<Rightarrow> string" where
  "digits n =
     (if n < 10 then [''0123456789'' ! n]
      else digits (n div 10) @ [''0123456789'' ! (n mod 10)])"

declare digits.simps [simp del]

definition numbered_scan :: "nat \<Rightarrow> json" where
  "numbered_scan i =
     JObj [(''dID'', JStr ''device_001''), (''uID'', JStr (''tag_'' @ digits i)),
           (''lat'', JNum (129352 / 10000)), (''lon'', JNum (776245 / 10000)),
           (''dTS'', JNum (1701266400 + of_nat i))]"

section \<open>Properties\<close>

subsection \<open>Dates\<close>

lemma round_half_even_of_int [simp]: "round_half_even (of_int k) = k"
  by (simp add: round_half_even_def)

lemma round_half_even_le: "x \<le> of_int b \<Longrightarrow> round_half_even x \<le> b"
proof -
  assume a: "x \<le> of_int b"
  have f: "\<lfloor>x\<rfloor> \<le> b" using a by (simp add: floor_le_iff) 
  show ?thesis
  proof (cases "x = of_int \<lfloor>x\<rfloor>")
    case True
    then show ?thesis using f by (simp add: round_half_even_def Let_def)
  next
    case False
    have "of_int \<lfloor>x\<rfloor> \<le> x" by simp
    moreover from False have "of_int \<lfloor>x\<rfloor> \<noteq> x" by (rule not_sym)
    ultimately have "of_int \<lfloor>x\<rfloor> < x" by (rule le_neq_trans)
    with a have "of_int \<lfloor>x\<rfloor> < (of_int b :: rat)" by simp
    then have "\<lfloor>x\<rfloor> < b" by simp
    then show ?thesis by (simp add: round_half_even_def Let_def)
  qed
qed

lemma round_half_even_ge: "of_int b \<le> x \<Longrightarrow> b \<le> round_half_even x"
proof -
  assume "of_int b \<le> x"
  then have "b \<le> \<lfloor>x\<rfloor>" by (simp add: le_floor_iff)
  then show ?thesis by (simp add: round_half_even_def Let_def)
qed

lemma round53_of_int [simp]: "round53 n (of_int k) = of_int k"
proof (induction n arbitrary: k)
  case 0
  show ?case by simp
next
  case (Suc n)
  have "round53 n (2 * of_int k) = round53 n (of_int (2 * k))" by simp
  also have "\<dots> = of_int (2 * k)" by (rule Suc.IH)
  finally show ?case by simp
qed

lemma round53_le: "x \<le> of_int b \<Longrightarrow> round53 n x \<le> of_int b"
proof (induction n arbitrary: x b)
  case 0
  then show ?case by (simp add: round_half_even_le)
next
  case (Suc n)
  from Suc.prems have "2 * x \<le> of_int (2 * b)" by simp
  from Suc.IH [OF this] have "round53 n (2 * x) / 2 \<le> of_int b" by simp
  with Suc.prems show ?case by (simp add: round_half_even_le)
qed

lemma round53_ge: "of_int b \<le> x \<Longrightarrow> of_int b \<le> round53 n x"
proof (induction n arbitrary: x b)
  case 0
  then show ?case by (simp add: round_half_even_ge)
next
  case (Suc n)
  from Suc.prems have "of_int (2 * b) \<le> 2 * x" by simp
  from Suc.IH [OF this] have "of_int b \<le> round53 n (2 * x) / 2" by simp
  with Suc.prems show ?case by (simp add: round_half_even_ge)
qed

lemma time_value_in_range:
  assumes "\<bar>x\<bar> \<le> 8640000000000000"
  shows "\<exists>ms. time_value x = Some ms"
proof -
  have "round53 53 \<bar>x\<bar> \<le> of_int 8640000000000000"
    by (rule round53_le) (use assms in simp)
  then show ?thesis using assms by (simp add: time_value_def Let_def)
qed

lemma time_value_of_int:
  assumes "\<bar>k\<bar> \<le> 8640000000000000"
  shows "time_value (of_int k) = Some k"
proof -
  have a: "\<bar>of_int k :: rat\<bar> = of_int \<bar>k\<bar>" by simp
  have b: "\<not> (2 ^ 53 \<le> (of_int \<bar>k\<bar> :: rat))"
  proof -
    from assms have "\<bar>k\<bar> < 2 ^ 53" by simp
    then have "(of_int \<bar>k\<bar> :: rat) < of_int (2 ^ 53)" by (simp only: of_int_less_iff)
    then show ?thesis by simp
  qed
  have c: "(of_int \<bar>k\<bar> :: rat) < 1 / 2 \<Longrightarrow> k = 0"
  proof -
    assume "(of_int \<bar>k\<bar> :: rat) < 1 / 2"
    then have "(of_int \<bar>k\<bar> :: rat) < of_int 1" by simp
    then have "\<bar>k\<bar> < 1" by (simp only: of_int_less_iff)
    then show "k = 0" by simp
  qed
  have r: "round53 53 (of_int \<bar>k\<bar>) = of_int \<bar>k\<bar>" by (rule round53_of_int)
  have d: "\<not> (8640000000000000 < (of_int \<bar>k\<bar> :: rat))"
  proof -
    from assms have "(of_int \<bar>k\<bar> :: rat) \<le> of_int 8640000000000000"
      by (simp only: of_int_le_iff)
    then show ?thesis by simp
  qed
  show ?thesis
  proof (cases "(of_int \<bar>k\<bar> :: rat) < 1 / 2")
    case True
    with c have "k = 0" by blast
    then show ?thesis by (simp add: time_value_def)
  next
    case False
    have "(if (of_int k :: rat) < 0 then - \<lfloor>(of_int \<bar>k\<bar> :: rat)\<rfloor> else \<lfloor>(of_int \<bar>k\<bar> :: rat)\<rfloor>) = k"
      by simp
    with False b d show ?thesis unfolding time_value_def a r Let_def by simp
  qed
qed

lemma date_of_undefined: "date_of_seconds rt None = Inl RangeError"
  by (simp add: date_of_seconds_def toISOString_def)

lemma date_of_whole_seconds:
  assumes "t \<in> \<int>" and "\<bar>t * 1000\<bar> \<le> 8640000000000000"
  shows "date_of_seconds rt (Some (JNum t)) = Inr (ISO \<lfloor>t * 1000\<rfloor>)"
proof -
  from assms(1) obtain k where k: "t = of_int k" by (auto elim: Ints_cases)
  have p: "t * 1000 = of_int (k * 1000)" by (simp add: k)
  from assms(2) have "(of_int \<bar>k * 1000\<bar> :: rat) \<le> of_int 8640000000000000"
    unfolding p by simp
  then have "\<bar>k * 1000\<bar> \<le> 8640000000000000" by (simp only: of_int_le_iff)
  then have "time_value (of_int (k * 1000)) = Some (k * 1000)" by (rule time_value_of_int)
  moreover have "\<lfloor>t * 1000\<rfloor> = k * 1000" unfolding p by (rule floor_of_int)
  ultimately show ?thesis unfolding date_of_seconds_def toISOString_def p [symmetric] by simp
qed

subsection \<open>Valid packets go through\<close>

lemma nonempty_stringE: "nonempty_string v \<Longrightarrow> \<exists>s. v = Some (JStr s) \<and> s \<noteq> []"
  by (cases v rule: nonempty_string.cases) auto

lemma is_numberE: "is_number v \<Longrightarrow> \<exists>n. v = Some (JNum n)"
  by (cases v rule: is_number.cases) auto

lemma is_timestampE: "is_timestamp v \<Longrightarrow> \<exists>t. v = Some (JNum t) \<and> \<bar>t * 1000\<bar> \<le> 8640000000000000"
  by (cases v rule: is_timestamp.cases) auto

lemma date_of_timestamp:
  "is_timestamp v \<Longrightarrow> \<exists>ms. date_of_seconds rt v = Inr (ISO ms)"
proof -
  assume "is_timestamp v"
  then obtain t where t: "v = Some (JNum t)" "\<bar>t * 1000\<bar> \<le> 8640000000000000"
    using is_timestampE by blast
  from time_value_in_range [OF t(2)] obtain ms where "time_value (t * 1000) = Some ms" ..
  then show ?thesis by (simp add: t date_of_seconds_def toISOString_def)
qed

lemma scanData_valid: "valid_rfid p \<Longrightarrow> \<exists>x. scanData rt p = Inr x"
  using date_of_timestamp [of "property p ''dTS''" rt]
  by (auto simp: valid_rfid_def scanData_def)

lemma rfid_valid_step:
  assumes "valid_rfid p" and "scanData rt p = Inr x"
  shows "handleRFIDMessage rt p s =
           \<lparr>st = s\<lparr>rfidScans := unshift_capped (maxRFIDHistory s) x (rfidScans s)\<rparr>,
            emitted = [rfid_scan x], outcome = Returned\<rparr>"
proof -
  from assms obtain d u la lo where f: "property p ''dID'' = Some (JStr d)" "d \<noteq> []"
    "property p ''uID'' = Some (JStr u)" "u \<noteq> []" "property p ''lat'' = Some (JNum la)"
    "property p ''lon'' = Some (JNum lo)"
    unfolding valid_rfid_def by (auto dest!: nonempty_stringE is_numberE)
  have nn: "p \<noteq> JNull" using f by auto
  show ?thesis
    using f assms(2) nn by (simp add: handleRFIDMessage_def Let_def)
qed

subsection \<open>The scan log\<close>

lemma unshift_capped_take:
  "length xs \<le> h \<Longrightarrow> unshift_capped h x xs = take h (x # xs)"
  by (cases "length xs = h") (auto simp: unshift_capped_def butlast_conv_take)

lemma take_Cons_take: "take h (x # take h xs) = take h (x # xs)"
  by (cases h) (simp_all add: min_def take_Suc_conv_app_nth)

lemma applyRFID_snoc: "applyRFID rt s (ps @ [p]) = st (handleRFIDMessage rt p (applyRFID rt s ps))"
  by (simp add: applyRFID_def)

lemma applyRFID_limit: "maxRFIDHistory (st (handleRFIDMessage rt p s)) = maxRFIDHistory s"
  by (simp add: handleRFIDMessage_def Let_def split: sum.splits)

lemma applyRFID_maxRFIDHistory: "maxRFIDHistory (applyRFID rt s ps) = maxRFIDHistory s"
  by (induction ps rule: rev_induct) (simp_all add: applyRFID_snoc applyRFID_limit, simp add: applyRFID_def)

lemma applyRFID_valid:
  assumes "\<forall>p\<in>set ps. valid_rfid p" and "length (rfidScans s) \<le> maxRFIDHistory s"
  shows "map Inr (rfidScans (applyRFID rt s ps)) =
           take (maxRFIDHistory s) (rev (map (scanData rt) ps) @ map Inr (rfidScans s))"
  using assms(1)
proof (induction ps rule: rev_induct)
  case Nil
  then show ?case using assms(2) by (simp add: applyRFID_def)
next
  case (snoc p ps)
  let ?s = "applyRFID rt s ps"
  from snoc.prems have v: "valid_rfid p" and vs: "\<forall>p\<in>set ps. valid_rfid p" by simp_all
  note ih = snoc.IH [OF vs]
  from v obtain x where x: "scanData rt p = Inr x" using scanData_valid by blast
  have len: "length (rfidScans ?s) \<le> maxRFIDHistory ?s"
  proof -
    from ih
    have "length (map (Inr :: scan \<Rightarrow> error + scan) (rfidScans ?s)) \<le> maxRFIDHistory s"
      by simp
    then show ?thesis by (simp add: applyRFID_maxRFIDHistory)
  qed
  have "rfidScans (applyRFID rt s (ps @ [p])) = take (maxRFIDHistory s) (x # rfidScans ?s)"
    using rfid_valid_step [OF v x, of ?s] len
    by (simp add: applyRFID_snoc unshift_capped_take applyRFID_maxRFIDHistory)
  then have "map Inr (rfidScans (applyRFID rt s (ps @ [p]))) =
      take (maxRFIDHistory s) (scanData rt p # map Inr (rfidScans ?s))"
    by (simp add: x take_map [symmetric])
  also have "\<dots> = take (maxRFIDHistory s) (scanData rt p # (rev (map (scanData rt) ps) @ map Inr (rfidScans s)))"
    unfolding ih by (rule take_Cons_take)
  finally show ?case by simp
qed

lemma evict_step:
  assumes "valid_rfid p" and "0 < maxRFIDHistory s" and "length (rfidScans s) = maxRFIDHistory s"
  shows "\<exists>x. scanData rt p = Inr x \<and>
             rfidScans (st (handleRFIDMessage rt p s)) = x # butlast (rfidScans s)"
proof -
  from assms(1) obtain x where x: "scanData rt p = Inr x" using scanData_valid by blast
  have "rfidScans s \<noteq> []" using assms(2,3) by auto
  then show ?thesis
    using rfid_valid_step [OF assms(1) x, of s] assms(3) x
    by (simp add: unshift_capped_def)
qed

lemma scanData_carries: "scanData rt p = Inr x \<Longrightarrow> carries rt x p"
  by (auto simp: scanData_def carries_def split: sum.splits)

lemma carries_of_map:
  assumes "map Inr xs = map (scanData rt) qs"
  shows "list_all2 (carries rt) xs qs"
proof -
  from assms have l: "length xs = length qs" by (rule map_eq_imp_length_eq)
  have "carries rt (xs ! i) (qs ! i)" if i: "i < length xs" for i
  proof -
    from assms have "map Inr xs ! i = map (scanData rt) qs ! i" by simp
    with i l have "scanData rt (qs ! i) = Inr (xs ! i)" by simp
    then show ?thesis by (rule scanData_carries)
  qed
  with l show ?thesis by (simp add: list_all2_conv_all_nth)
qed

lemma list_all2_map_field:
  "list_all2 (carries rt) xs qs \<Longrightarrow> map tagUID xs = map (\<lambda>p. property p ''uID'') qs"
  by (simp add: list_all2_conv_all_nth list_eq_iff_nth_eq carries_def)

text \<open>
  Claim C1. After more than \<open>H = maxRFIDHistory = 100\<close> valid scan packets have gone through
  \<^verbatim>\<open>handleRFIDMessage\<close> since start-up, the scan log holds exactly 100 entries, and they carry
  the 100 packets applied last, newest first: entry by entry the device, tag, message,
  position, timestamp and raw payload are those of the packet. An insertion into a full
  log puts the new scan first and drops the last entry, the one inserted longest ago.
\<close>

theorem scan_log_keeps_newest:
  assumes "\<forall>p\<in>set ps. valid_rfid p" and "maxRFIDHistory state0 < length ps"
  shows "maxRFIDHistory state0 = 100 \<and>
         length (rfidScans (applyRFID rt state0 ps)) = 100 \<and>
         list_all2 (carries rt) (rfidScans (applyRFID rt state0 ps)) (take 100 (rev ps)) \<and>
         map rawPayload (rfidScans (applyRFID rt state0 ps)) = take 100 (rev ps) \<and>
         map Inr (rfidScans (applyRFID rt state0 ps)) = take 100 (rev (map (scanData rt) ps)) \<and>
         (\<forall>s p. valid_rfid p \<and> 0 < maxRFIDHistory s \<and> length (rfidScans s) = maxRFIDHistory s \<longrightarrow>
            (\<exists>x. carries rt x p \<and>
                 rfidScans (st (handleRFIDMessage rt p s)) = x # butlast (rfidScans s)))"
proof -
  have h: "maxRFIDHistory state0 = 100" by (simp add: state0_def)
  have "map Inr (rfidScans (applyRFID rt state0 ps)) =
          take (maxRFIDHistory state0) (rev (map (scanData rt) ps) @ map Inr (rfidScans state0))"
    by (rule applyRFID_valid [OF assms(1)]) (simp add: state0_def)
  then have eq: "map Inr (rfidScans (applyRFID rt state0 ps)) = take 100 (rev (map (scanData rt) ps))"
    using assms(2) by (simp add: state0_def)
  have "length (map (Inr :: scan \<Rightarrow> error + scan) (rfidScans (applyRFID rt state0 ps))) = 100"
    unfolding eq using assms(2) h by simp
  then have len: "length (rfidScans (applyRFID rt state0 ps)) = 100" by simp
  from eq have "map Inr (rfidScans (applyRFID rt state0 ps)) = map (scanData rt) (take 100 (rev ps))"
    by (simp add: take_map rev_map)
  then have c: "list_all2 (carries rt) (rfidScans (applyRFID rt state0 ps)) (take 100 (rev ps))"
    by (rule carries_of_map)
  then have "list_all2 (\<lambda>x p. rawPayload x = p) (rfidScans (applyRFID rt state0 ps)) (take 100 (rev ps))"
    by (rule list_all2_mono) (simp add: carries_def)
  then have r: "map rawPayload (rfidScans (applyRFID rt state0 ps)) = take 100 (rev ps)"
    by (simp add: list_all2_conv_all_nth list_eq_iff_nth_eq)
  have e: "\<exists>x. carries rt x p \<and> rfidScans (st (handleRFIDMessage rt p s)) = x # butlast (rfidScans s)"
    if "valid_rfid p" "0 < maxRFIDHistory s" "length (rfidScans s) = maxRFIDHistory s" for s p
    using evict_step [OF that, of rt] scanData_carries by blast
  show ?thesis using h len c r eq e by blast
qed

text \<open>
  The scenario of 101 scans \<^verbatim>\<open>tag_1\<close> to \<^verbatim>\<open>tag_101\<close>: the log has 100 entries, those of
  \<^verbatim>\<open>tag_101\<close> down to \<^verbatim>\<open>tag_2\<close>; \<^verbatim>\<open>tag_101\<close> is first and the packet of \<^verbatim>\<open>tag_1\<close> is gone.
\<close>

theorem scan_log_keeps_newest_witness:
  "length (rfidScans (applyRFID runtime0 state0 (map numbered_scan [1..<102]))) = 100 \<and>
   map rawPayload (rfidScans (applyRFID runtime0 state0 (map numbered_scan [1..<102]))) =
     map numbered_scan (rev [2..<102]) \<and>
   tagUID (hd (rfidScans (applyRFID runtime0 state0 (map numbered_scan [1..<102])))) =
     Some (JStr ''tag_101'') \<and>
   numbered_scan 1 \<notin>
     set (map rawPayload (rfidScans (applyRFID runtime0 state0 (map numbered_scan [1..<102]))))"
proof -
  let ?ps = "map numbered_scan [1..<102]"
  let ?log = "rfidScans (applyRFID runtime0 state0 ?ps)"
  have v: "\<forall>p\<in>set ?ps. valid_rfid p"
    by (auto simp: valid_rfid_def numbered_scan_def simp del: upt_rec_numeral)
  have n: "maxRFIDHistory state0 < length ?ps" by (simp add: state0_def del: upt_rec_numeral)
  have "drop 1 [1..<102] = [2..<(102::nat)]"
    using drop_upt [of 1 1 102] by (simp add: numeral_2_eq_2 del: upt_rec_numeral)
  then have d: "drop 1 ?ps = map numbered_scan [2..<102]" by (simp only: drop_map)
  have l: "length ?ps - 100 = 1" by (simp del: upt_rec_numeral)
  have "take 100 (rev ?ps) = rev (drop (length ?ps - 100) ?ps)" by (rule take_rev)
  then have t: "take 100 (rev ?ps) = map numbered_scan (rev [2..<102])"
    by (simp only: l d rev_map)
  from scan_log_keeps_newest [OF v n, of runtime0]
  have len: "length ?log = 100" and c: "list_all2 (carries runtime0) ?log (take 100 (rev ?ps))"
    and r: "map rawPayload ?log = take 100 (rev ?ps)" by blast+
  from len have ne: "?log \<noteq> []" by auto
  have "map tagUID ?log = map (\<lambda>p. property p ''uID'') (map numbered_scan (rev [2..<102]))"
    using list_all2_map_field [OF c] by (simp only: t)
  then have "hd (map tagUID ?log) = hd (map (\<lambda>p. property p ''uID'') (map numbered_scan (rev [2..<102])))"
    by simp
  then have h: "tagUID (hd ?log) = Some (JStr ''tag_101'')"
    using ne by (simp add: hd_map hd_rev numbered_scan_def digits.simps del: upt_rec_numeral)
  have a: "numbered_scan 1 \<notin> set (map numbered_scan (rev [2..<102]))"
    by (auto simp: numbered_scan_def simp del: upt_rec_numeral)
  show ?thesis using len r h a by (simp only: t) simp
qed

subsection \<open>The device map\<close>

lemma gps_valid_step:
  assumes "valid_gps p"
  shows "\<exists>dev. holds dev p \<and>
           handleGPSMessage rt p s =
             \<lparr>st = s\<lparr>devices := AList.update (property p ''dID'') dev (devices s)\<rparr>,
              emitted = [gps_update (property p ''dID'') (property p ''lat'') (property p ''lon'')
                           (property p ''dTS'') (lastUpdate dev) p],
              outcome = Returned\<rparr>"
proof -
  from assms obtain d la lo where f: "property p ''dID'' = Some (JStr d)" "d \<noteq> []"
    "property p ''lat'' = Some (JNum la)" "property p ''lon'' = Some (JNum lo)"
    unfolding valid_gps_def by (auto dest!: nonempty_stringE is_numberE)
  from assms obtain ms where d: "date_of_seconds rt (property p ''dTS'') = Inr (ISO ms)"
    unfolding valid_gps_def using date_of_timestamp by blast
  have nn: "p \<noteq> JNull" using f by auto
  show ?thesis
    using f d nn
    by (intro exI [of _ "\<lparr>deviceId = property p ''dID'', latitude = property p ''lat'',
          longitude = property p ''lon'', timestamp = property p ''dTS'',
          lastUpdate = ISO ms, raw = p\<rparr>"])
       (simp add: handleGPSMessage_def Let_def devices_set_def holds_def)
qed

lemma applyGPS_snoc: "applyGPS rt s (ps @ [p]) = st (handleGPSMessage rt p (applyGPS rt s ps))"
  by (simp add: applyGPS_def)

lemma latest_snoc:
  "latest d (ps @ [p]) = (if property p ''dID'' = d then Some p else latest d ps)"
  by (simp add: latest_def)

lemma applyGPS_valid:
  assumes "\<forall>p\<in>set ps. valid_gps p" and "distinct (map fst (devices s))"
  shows "distinct (map fst (devices (applyGPS rt s ps))) \<and>
         fst ` set (devices (applyGPS rt s ps)) =
           fst ` set (devices s) \<union> (\<lambda>p. property p ''dID'') ` set ps \<and>
         (\<forall>d. case latest d ps of
                 None \<Rightarrow> map_of (devices (applyGPS rt s ps)) d = map_of (devices s) d
               | Some q \<Rightarrow> \<exists>dev. map_of (devices (applyGPS rt s ps)) d = Some dev \<and> holds dev q)"
  using assms(1)
proof (induction ps rule: rev_induct)
  case Nil
  then show ?case using assms(2) by (simp add: applyGPS_def latest_def)
next
  case (snoc p ps)
  let ?s = "applyGPS rt s ps"
  from snoc.prems have v: "valid_gps p" and vs: "\<forall>p\<in>set ps. valid_gps p" by simp_all
  note ih = snoc.IH [OF vs]
  from gps_valid_step [OF v, of rt ?s] obtain dev where dev: "holds dev p"
    and step: "devices (applyGPS rt s (ps @ [p])) = AList.update (property p ''dID'') dev (devices ?s)"
    by (auto simp: applyGPS_snoc)
  have "distinct (map fst (devices (applyGPS rt s (ps @ [p]))))"
    using ih by (simp add: step distinct_update)
  moreover have "fst ` set (devices (applyGPS rt s (ps @ [p]))) =
      fst ` set (devices s) \<union> (\<lambda>p. property p ''dID'') ` set (ps @ [p])"
    using ih by (auto simp: step dom_update)
  moreover have "\<forall>d. case latest d (ps @ [p]) of
                 None \<Rightarrow> map_of (devices (applyGPS rt s (ps @ [p]))) d = map_of (devices s) d
               | Some q \<Rightarrow> \<exists>dev. map_of (devices (applyGPS rt s (ps @ [p]))) d = Some dev \<and> holds dev q"
  proof
    fix d
    show "case latest d (ps @ [p]) of
                 None \<Rightarrow> map_of (devices (applyGPS rt s (ps @ [p]))) d = map_of (devices s) d
               | Some q \<Rightarrow> \<exists>dev. map_of (devices (applyGPS rt s (ps @ [p]))) d = Some dev \<and> holds dev q"
    proof (cases "property p ''dID'' = d")
      case True
      then show ?thesis using dev by (simp add: latest_snoc step update_conv')
    next
      case False
      have "map_of (devices (applyGPS rt s (ps @ [p]))) d = map_of (devices ?s) d"
        using False by (simp add: step update_conv')
      moreover have "latest d (ps @ [p]) = latest d ps"
        using False by (simp add: latest_snoc)
      moreover from ih have "case latest d ps of
                 None \<Rightarrow> map_of (devices ?s) d = map_of (devices s) d
               | Some q \<Rightarrow> \<exists>dev. map_of (devices ?s) d = Some dev \<and> holds dev q"
        by blast
      ultimately show ?thesis by (simp split: option.splits)
    qed
  qed
  ultimately show ?case by blast
qed

text \<open>
  Claim C2. After any sequence of valid GPS packets has gone through \<^verbatim>\<open>handleGPSMessage\<close>
  since start-up, the device map has one entry per distinct \<^verbatim>\<open>dID\<close> seen, and the entry of
  each \<^verbatim>\<open>dID\<close> holds the latitude, longitude and timestamp of the packet applied last for
  it. Nothing is assumed about the order of the timestamps: in the example below the
  packet that arrives last carries the oldest one and still wins.
\<close>

theorem gps_last_write_wins:
  assumes "\<forall>p\<in>set ps. valid_gps p"
  shows "length (devices (applyGPS rt state0 ps)) = card ((\<lambda>p. property p ''dID'') ` set ps) \<and>
         (\<forall>p\<in>set ps. \<exists>q dev.
            latest (property p ''dID'') ps = Some q \<and>
            devices_get (devices (applyGPS rt state0 ps)) (property p ''dID'') = Some dev \<and>
            latitude dev = property q ''lat'' \<and> longitude dev = property q ''lon'' \<and>
            timestamp dev = property q ''dTS'')"
proof -
  let ?ds = "devices (applyGPS rt state0 ps)"
  have inv: "distinct (map fst ?ds)"
    "fst ` set ?ds = (\<lambda>p. property p ''dID'') ` set ps"
    "\<And>d. case latest d ps of None \<Rightarrow> map_of ?ds d = map_of (devices state0) d
          | Some q \<Rightarrow> \<exists>dev. map_of ?ds d = Some dev \<and> holds dev q"
    using applyGPS_valid [OF assms, of state0 rt] by (simp_all add: state0_def)
  have "length ?ds = length (map fst ?ds)" by simp
  also have "\<dots> = card (set (map fst ?ds))" using inv(1) by (rule distinct_card [symmetric])
  also have "\<dots> = card ((\<lambda>p. property p ''dID'') ` set ps)" using inv(2) by simp
  finally have size: "length ?ds = card ((\<lambda>p. property p ''dID'') ` set ps)" .
  have each: "\<exists>q dev. latest (property p ''dID'') ps = Some q \<and>
            devices_get ?ds (property p ''dID'') = Some dev \<and>
            latitude dev = property q ''lat'' \<and> longitude dev = property q ''lon'' \<and>
            timestamp dev = property q ''dTS''" if p: "p \<in> set ps" for p
  proof -
    from p assms have "nonempty_string (property p ''dID'')" by (simp add: valid_gps_def)
    then have nr: "\<not> is_reference (property p ''dID'')" by (auto dest!: nonempty_stringE)
    from p have "\<exists>q\<in>set (rev ps). property q ''dID'' = property p ''dID''" by auto
    then obtain q where q: "latest (property p ''dID'') ps = Some q"
      unfolding latest_def by (cases "List.find (\<lambda>q. property q ''dID'' = property p ''dID'') (rev ps)")
        (auto simp: find_None_iff)
    with inv(3) [of "property p ''dID''"] obtain dev where
      "map_of ?ds (property p ''dID'') = Some dev" "holds dev q" by auto
    then show ?thesis using q nr by (auto simp: devices_get_def holds_def)
  qed
  show ?thesis using size each by blast
qed

theorem gps_last_write_wins_witness:
  "length (devices (applyGPS runtime0 state0 gps_example)) = 2 \<and>
   (\<exists>dev. devices_get (devices (applyGPS runtime0 state0 gps_example)) (Some (JStr ''device_001'')) = Some dev
      \<and> latitude dev = Some (JNum 13) \<and> timestamp dev = Some (JNum 1701266000))"
proof -
  have v: "\<forall>p\<in>set gps_example. valid_gps p"
    by (simp add: gps_example_def gps_packet_def valid_gps_def)
  have l: "latest (Some (JStr ''device_001'')) gps_example = Some (gps_packet ''device_001'' 1701266000 13)"
    by (simp add: latest_def gps_example_def gps_packet_def)
  have c: "card ((\<lambda>p. property p ''dID'') ` set gps_example) = 2"
    by (simp add: gps_example_def gps_packet_def insert_commute)
  have m: "gps_packet ''device_001'' 1701266000 13 \<in> set gps_example"
    by (simp add: gps_example_def)
  from gps_last_write_wins [OF v, of runtime0] c l m show ?thesis
    by (fastforce simp: gps_packet_def)
qed

subsection \<open>The validation guard\<close>

lemma truthy_iff: "truthy v \<longleftrightarrow> v \<notin> falsy"
  by (cases v rule: truthy.cases) (auto simp: falsy_def)

text \<open>
  Claim C3 says that a payload with a missing field or with a coordinate that is present
  but not a number changes neither the device count nor the scan log. The second half
  fails: the guard tests presence only, so a GPS packet whose \<^verbatim>\<open>lat\<close> is a string is stored
  as a new device and broadcast; only the log line after that raises, on \<^verbatim>\<open>toFixed\<close>.
\<close>

theorem nonnumeric_coordinate_counterexample:
  "length (devices (st (handleGPSMessage runtime0 bad_coordinate state0))) = 1 \<and>
   length (devices state0) = 0 \<and>
   emitted (handleGPSMessage runtime0 bad_coordinate state0) \<noteq> [] \<and>
   outcome (handleGPSMessage runtime0 bad_coordinate state0) = Threw TypeError"
  by (simp add: handleGPSMessage_def bad_coordinate_def state0_def runtime0_def Let_def
      date_of_whole_seconds date_of_undefined devices_set_def)

text \<open>
  Claim C3, amended to the payloads the guard is written for. A payload whose \<^verbatim>\<open>dID\<close> is
  absent or falsy, or whose \<^verbatim>\<open>lat\<close> or \<^verbatim>\<open>lon\<close> is absent, and for the scan handler also one
  whose \<^verbatim>\<open>uID\<close> is absent or falsy, is dropped whole: the handler leaves the state as it
  was and emits nothing, and the message callback leaves the server as it was. The handler
  returns at the guard; for the payload \<^verbatim>\<open>null\<close> the destructuring raises instead, and the
  callback catches it.
\<close>

theorem missing_field_dropped:
  "(\<not> truthy (property p ''dID'') \<or> property p ''lat'' = None \<or> property p ''lon'' = None \<longrightarrow>
      handleGPSMessage rt p s =
        \<lparr>st = s, emitted = [], outcome = (if p = JNull then Threw TypeError else Rejected)\<rparr> \<and>
      on_message rt cl topic (Some p) w = w) \<and>
   (\<not> truthy (property p ''dID'') \<or> \<not> truthy (property p ''uID'') \<or>
    property p ''lat'' = None \<or> property p ''lon'' = None \<longrightarrow>
      handleRFIDMessage rt p s =
        \<lparr>st = s, emitted = [], outcome = (if p = JNull then Threw TypeError else Rejected)\<rparr> \<and>
      (topic \<noteq> gpsTopic cl \<longrightarrow> on_message rt cl topic (Some p) w = w))"
  by (auto simp: handleGPSMessage_def handleRFIDMessage_def on_message_def finish_def Let_def)

theorem missing_field_dropped_witness:
  "handleGPSMessage runtime0 missing_lat state0 =
     \<lparr>st = state0, emitted = [], outcome = Rejected\<rparr> \<and>
   handleRFIDMessage runtime0 missing_uID state0 =
     \<lparr>st = state0, emitted = [], outcome = Rejected\<rparr> \<and>
   handleGPSMessage runtime0 JNull state0 =
     \<lparr>st = state0, emitted = [], outcome = Threw TypeError\<rparr>"
  using missing_field_dropped [of missing_lat runtime0 state0]
    missing_field_dropped [of missing_uID runtime0 state0]
    missing_field_dropped [of JNull runtime0 state0]
  by (simp add: missing_lat_def missing_uID_def)

text \<open>
  Claim C5 says that a packet without \<^verbatim>\<open>dTS\<close> is stored with the server's current time.
  \<^verbatim>\<open>server.js\<close> has no such default: it computes \<^verbatim>\<open>new Date(undefined * 1000).toISOString()\<close>,
  which raises RangeError. Nothing is broadcast; a scan is not logged; a device that is
  not yet known is not stored, and one that is known keeps its old \<^verbatim>\<open>lastUpdate\<close> and \<^verbatim>\<open>raw\<close>
  beside the new position and the timestamp \<^verbatim>\<open>undefined\<close>, which were assigned before the
  call that raised.
\<close>

theorem absent_dTS_raises:
  assumes "truthy (property p ''dID'')" and "property p ''lat'' \<noteq> None"
      and "property p ''lon'' \<noteq> None" and "property p ''dTS'' = None"
  shows "outcome (handleGPSMessage rt p s) = Threw RangeError \<and>
         emitted (handleGPSMessage rt p s) = [] \<and>
         devices_get (devices (st (handleGPSMessage rt p s))) (property p ''dID'') =
           map_option (\<lambda>old. old\<lparr>deviceId := property p ''dID'', latitude := property p ''lat'',
                                   longitude := property p ''lon'', timestamp := None\<rparr>)
             (devices_get (devices s) (property p ''dID'')) \<and>
         (truthy (property p ''uID'') \<longrightarrow>
            handleRFIDMessage rt p s = \<lparr>st = s, emitted = [], outcome = Threw RangeError\<rparr>)"
proof -
  have nn: "p \<noteq> JNull" using assms(1) by auto
  have d: "date_of_seconds rt None = Inl RangeError"
    by (simp add: date_of_whole_seconds date_of_undefined)
  show ?thesis using assms nn d
    by (auto simp: handleGPSMessage_def handleRFIDMessage_def scanData_def Let_def devices_get_def
        update_conv' split: option.splits)
qed

theorem absent_dTS_raises_witness:
  "handleGPSMessage runtime0 missing_dTS state0 =
     \<lparr>st = state0, emitted = [], outcome = Threw RangeError\<rparr> \<and>
   handleRFIDMessage runtime0 missing_dTS state0 =
     \<lparr>st = state0, emitted = [], outcome = Threw RangeError\<rparr> \<and>
   map (\<lambda>(k, d). (latitude d, timestamp d, lastUpdate d))
     (devices (st (handleGPSMessage runtime0 missing_dTS
        (applyGPS runtime0 state0 [gps_packet ''device_001'' 1701266400 (129352 / 10000)])))) =
     [(Some (JNum 13), None, ISO 1701266400000)]"
proof -
  have "map (\<lambda>(k, d). (latitude d, timestamp d, lastUpdate d))
     (devices (st (handleGPSMessage runtime0 missing_dTS
        (applyGPS runtime0 state0 [gps_packet ''device_001'' 1701266400 (129352 / 10000)])))) =
     [(Some (JNum 13), None, ISO 1701266400000)]"
    by (simp add: missing_dTS_def gps_packet_def state0_def runtime0_def applyGPS_def
        handleGPSMessage_def Let_def date_of_whole_seconds date_of_undefined
        devices_get_def devices_set_def)
  with absent_dTS_raises [of missing_dTS runtime0 state0] show ?thesis
    by (simp add: missing_dTS_def state0_def handleGPSMessage_def Let_def date_of_whole_seconds
        date_of_undefined devices_get_def)
qed

text \<open>
  Claim C9. The guard is a test of truthiness and presence, not of type: a payload (other
  than \<^verbatim>\<open>null\<close>, which cannot be destructured) is turned away at the guard exactly when its
  \<^verbatim>\<open>dID\<close> is absent, \<^verbatim>\<open>null\<close>, \<^verbatim>\<open>false\<close>, 0 or the empty string, or, for a scan, its \<^verbatim>\<open>uID\<close>
  is, or \<^verbatim>\<open>lat\<close> or \<^verbatim>\<open>lon\<close> is absent. So a coordinate 0 is accepted, and so is one that
  is present but \<^verbatim>\<open>null\<close> or a string.
\<close>

theorem validation_tests_presence_only:
  assumes "p \<noteq> JNull"
  shows "(outcome (handleGPSMessage rt p s) = Rejected \<longleftrightarrow>
            property p ''dID'' \<in> falsy \<or> property p ''lat'' = None \<or> property p ''lon'' = None) \<and>
         (outcome (handleRFIDMessage rt p s) = Rejected \<longleftrightarrow>
            property p ''dID'' \<in> falsy \<or> property p ''uID'' \<in> falsy \<or>
            property p ''lat'' = None \<or> property p ''lon'' = None)"
  using assms
  by (auto simp: handleGPSMessage_def handleRFIDMessage_def Let_def truthy_iff split: sum.splits)

theorem validation_tests_presence_only_witness:
  "outcome (handleGPSMessage runtime0 zero_and_null state0) \<noteq> Rejected \<and>
   outcome (handleRFIDMessage runtime0 zero_and_null state0) \<noteq> Rejected \<and>
   outcome (handleGPSMessage runtime0 bad_coordinate state0) \<noteq> Rejected \<and>
   outcome (handleGPSMessage runtime0 missing_lat state0) = Rejected"
  using validation_tests_presence_only [of zero_and_null runtime0 state0]
    validation_tests_presence_only [of bad_coordinate runtime0 state0]
    validation_tests_presence_only [of missing_lat runtime0 state0]
  by (simp add: zero_and_null_def bad_coordinate_def missing_lat_def falsy_def)

subsection \<open>What a scan leaves alone\<close>

text \<open>
  Claim C10. \<^verbatim>\<open>handleRFIDMessage\<close> never touches the device map, whatever the payload: a
  scan is added to the log and broadcast, and every device record, also that of the
  scanning device, stays as it was, although the scan carries a position.
\<close>

theorem rfid_leaves_devices:
  "devices (st (handleRFIDMessage rt p s)) = devices s \<and>
   devices (applyRFID rt s ps) = devices s"
proof -
  have one: "devices (st (handleRFIDMessage rt q s')) = devices s'" for q s'
    by (simp add: handleRFIDMessage_def Let_def split: sum.splits)
  have "devices (applyRFID rt s ps) = devices s"
    by (induction ps rule: rev_induct) (simp_all add: applyRFID_def one)
  with one show ?thesis by simp
qed

theorem rfid_leaves_devices_witness:
  "devices (st (handleRFIDMessage runtime0 (rfid_packet ''tag_001'' 1701266401)
      (applyGPS runtime0 state0 gps_example))) = devices (applyGPS runtime0 state0 gps_example) \<and>
   length (rfidScans (st (handleRFIDMessage runtime0 (rfid_packet ''tag_001'' 1701266401)
      (applyGPS runtime0 state0 gps_example)))) = 1 \<and>
   length (devices (applyGPS runtime0 state0 gps_example)) = 2"
proof -
  have "rfidScans (applyGPS runtime0 state0 gps_example) = []"
    "maxRFIDHistory (applyGPS runtime0 state0 gps_example) = 100"
    "length (devices (applyGPS runtime0 state0 gps_example)) = 2"
    by (simp_all add: gps_example_def gps_packet_def state0_def runtime0_def applyGPS_def
        handleGPSMessage_def Let_def date_of_whole_seconds date_of_undefined
        devices_get_def devices_set_def)
  then have "length (rfidScans (st (handleRFIDMessage runtime0 (rfid_packet ''tag_001'' 1701266401)
      (applyGPS runtime0 state0 gps_example)))) = 1"
    "length (devices (applyGPS runtime0 state0 gps_example)) = 2"
    by (simp_all add: rfid_packet_def runtime0_def handleRFIDMessage_def scanData_def Let_def
        date_of_whole_seconds date_of_undefined unshift_capped_def)
  with rfid_leaves_devices [of runtime0 "rfid_packet ''tag_001'' 1701266401"
      "applyGPS runtime0 state0 gps_example" "[]"]
  show ?thesis by simp
qed

subsection \<open>The bus connection\<close>

lemma step_lifecycle:
  "lifecycle i \<Longrightarrow> devices (state (step rt w (now, i))) = devices (state w) \<and>
     rfidScans (state (step rt w (now, i))) = rfidScans (state w)"
  by (cases i)
     (auto simp: on_connection_def socket_emit_def io_emit_def connect_mqtt_def on_connect_def
       on_error_def on_offline_def on_close_def split: option.splits)

text \<open>
  Claim C7. No sequence of connection events (connect requests, a client connecting,
  going offline, closing, reconnecting or failing) and of viewers coming and going changes
  the device map or the scan log: only the connection table, the client list and the
  socket list move.
\<close>

theorem lifecycle_keeps_registry:
  assumes "\<forall>m\<in>set tr. lifecycle (snd m)"
  shows "devices (state (run rt w tr)) = devices (state w) \<and>
         rfidScans (state (run rt w tr)) = rfidScans (state w)"
  using assms
proof (induction tr rule: rev_induct)
  case Nil
  then show ?case by (simp add: run_def)
next
  case (snoc m tr)
  obtain now i where m: "m = (now, i)" by (cases m)
  with snoc.prems have "lifecycle i" by simp
  from step_lifecycle [OF this, of rt "run rt w tr" now] snoc show ?case
    by (simp add: run_def m)
qed

lemmas world_simps = run_def world0_def state0_def runtime0_def on_connection_def socket_emit_def
  io_emit_def connect_mqtt_def on_connect_def on_error_def on_offline_def on_close_def
  on_message_def finish_def

lemmas handler_simps = handleGPSMessage_def handleRFIDMessage_def scanData_def Let_def
  date_of_whole_seconds date_of_undefined devices_set_def devices_get_def
  unshift_capped_def

theorem lifecycle_keeps_registry_witness:
  "length (devices (state (run runtime0 world0 registry_example))) = 1 \<and>
   length (rfidScans (state (run runtime0 world0 registry_example))) = 1 \<and>
   devices (state (run runtime0 (run runtime0 world0 registry_example) lifecycle_example)) =
     devices (state (run runtime0 world0 registry_example)) \<and>
   rfidScans (state (run runtime0 (run runtime0 world0 registry_example) lifecycle_example)) =
     rfidScans (state (run runtime0 world0 registry_example))"
proof -
  have a: "length (devices (state (run runtime0 world0 registry_example))) = 1"
    by (simp add: registry_example_def broker_a_def gps_packet_def rfid_packet_def world_simps
        handler_simps)
  have b: "length (rfidScans (state (run runtime0 world0 registry_example))) = 1"
    by (simp add: registry_example_def broker_a_def gps_packet_def rfid_packet_def world_simps
        handler_simps)
  have c: "\<forall>m\<in>set lifecycle_example. lifecycle (snd m)"
    by (simp add: lifecycle_example_def)
  from lifecycle_keeps_registry [OF c, of runtime0 "run runtime0 world0 registry_example"] a b
  show ?thesis by simp
qed

text \<open>
  Claim C4 says that at most one bus connection is live, an earlier one being torn down
  when a connect request arrives. \<^verbatim>\<open>server.js\<close> keeps a table of connections by
  \<^verbatim>\<open>clientId\<close> and ends none: after two requests two clients are live and in the table,
  and the first still feeds the registry.
\<close>

theorem two_connections_counterexample:
  "length (clients (run runtime0 world0 two_connects)) = 2 \<and>
   map fst (mqttConnections (state (run runtime0 world0 two_connects))) = [''viewer_a'', ''viewer_b''] \<and>
   map (client \<circ> snd) (mqttConnections (state (run runtime0 world0 two_connects))) = [0, 1] \<and>
   length (devices (state (run runtime0 world0 (two_connects @
      [(3, OnMessage 0 ''devices/gps'' (Some (gps_packet ''device_001'' 1701266400 13)))])))) = 1"
  by (simp add: two_connects_def broker_a_def broker_b_def gps_packet_def world_simps handler_simps)

lemma update_fresh: "k \<notin> fst ` set al \<Longrightarrow> AList.update k v al = al @ [(k, v)]"
  by (induction al) auto

lemma step_distinct:
  "distinct (map fst (mqttConnections (state w))) \<Longrightarrow>
   distinct (map fst (mqttConnections (state (step rt w m))))"
proof -
  obtain now i where m: "m = (now, i)" by (cases m)
  assume d: "distinct (map fst (mqttConnections (state w)))"
  have g: "mqttConnections (st (handleGPSMessage rt p s)) = mqttConnections s" for p s
    by (simp add: handleGPSMessage_def Let_def split: sum.splits option.splits)
  have r: "mqttConnections (st (handleRFIDMessage rt p s)) = mqttConnections s" for p s
    by (simp add: handleRFIDMessage_def Let_def split: sum.splits)
  have f: "state (fold io_emit es v) = state v" for es v
    by (induction es arbitrary: v) (simp_all add: io_emit_def)
  show ?thesis unfolding m using d
    by (cases i)
       (auto simp: on_connection_def socket_emit_def io_emit_def connect_mqtt_def on_connect_def
         on_error_def on_offline_def on_close_def on_message_def finish_def f g r
         distinct_update distinct_delete split: option.splits)
qed

lemma run_distinct: "distinct (map fst (mqttConnections (state (run rt world0 tr))))"
proof (induction tr rule: rev_induct)
  case Nil
  show ?case by (simp add: run_def world0_def state0_def)
next
  case (snoc m tr)
  then show ?case using step_distinct [of "run rt world0 tr" rt m] by (simp add: run_def)
qed

text \<open>
  Claim C4, amended to the table the server keeps. In every state reached from start-up
  the connection table has at most one entry per \<^verbatim>\<open>clientId\<close>. A connect request that the
  library accepts, under a \<^verbatim>\<open>clientId\<close> not in the table, tears nothing down: it adds one
  client after the live ones and one entry after those in the table, all of which stay.
\<close>

theorem connections_kept_per_client:
  assumes "w = run rt world0 tr" and "sid \<in> set (sockets w)"
      and "mqtt_connect rt (brokerUrl cfg) = None"
      and "clientId cfg \<notin> fst ` set (mqttConnections (state w))"
  shows "distinct (map fst (mqttConnections (state w))) \<and>
         clients (step rt w (now, ConnectMqtt sid cfg)) =
           clients w @ [\<lparr>brokerUrl = brokerUrl cfg, gpsTopic = gpsTopic cfg,
                         rfidTopic = rfidTopic cfg, clientId = clientId cfg, socket = sid\<rparr>] \<and>
         mqttConnections (state (step rt w (now, ConnectMqtt sid cfg))) =
           mqttConnections (state w) @
             [(clientId cfg, \<lparr>brokerUrl = brokerUrl cfg, gpsTopic = gpsTopic cfg,
                               rfidTopic = rfidTopic cfg, client = length (clients w),
                               connectedAt = now\<rparr>)]"
  using assms run_distinct [of rt tr]
  by (simp add: connect_mqtt_def update_fresh)

theorem connections_kept_per_client_witness:
  "clients (step runtime0 (run runtime0 world0 [(0, Connection 1), (1, ConnectMqtt 1 broker_a)])
      (2, ConnectMqtt 1 broker_b)) =
     clients (run runtime0 world0 [(0, Connection 1), (1, ConnectMqtt 1 broker_a)]) @
       [\<lparr>brokerUrl = brokerUrl broker_b, gpsTopic = gpsTopic broker_b,
         rfidTopic = rfidTopic broker_b, clientId = clientId broker_b, socket = 1\<rparr>]"
proof -
  let ?w = "run runtime0 world0 [(0, Connection 1), (1, ConnectMqtt 1 broker_a)]"
  have s: "sockets ?w = [1]" and c: "map fst (mqttConnections (state ?w)) = [''viewer_a'']"
    by (simp_all add: broker_a_def world_simps)
  have f: "clientId broker_b \<notin> fst ` set (mqttConnections (state ?w))"
    using c by (simp add: broker_b_def flip: set_map)
  have m: "mqtt_connect runtime0 (brokerUrl broker_b) = None" by (simp add: runtime0_def)
  from connections_kept_per_client [OF refl _ m f, of 1 2] s show ?thesis by simp
qed

subsection \<open>The statistics\<close>

text \<open>
  Claim C8 says that the statistics carry a bus connection status. They carry the number
  of entries in the connection table, which does not tell the status: it is 1 both after
  the client has connected (broadcast status \<^verbatim>\<open>connected\<close>) and after it has failed
  (broadcast status \<^verbatim>\<open>error\<close>), and the two answers are equal in every field.
\<close>

theorem stats_hide_status_counterexample:
  "api_stats 3 (state (run runtime0 world0
      [(0, Connection 1), (1, ConnectMqtt 1 broker_a), (2, OnConnect 0 False)])) =
   api_stats 3 (state (run runtime0 world0
      [(0, Connection 1), (1, ConnectMqtt 1 broker_a), (2, OnError 0 ''ECONNREFUSED'')])) \<and>
   statuses (run runtime0 world0
      [(0, Connection 1), (1, ConnectMqtt 1 broker_a), (2, OnConnect 0 False)]) = [connected] \<and>
   statuses (run runtime0 world0
      [(0, Connection 1), (1, ConnectMqtt 1 broker_a), (2, OnError 0 ''ECONNREFUSED'')]) =
     [error ''ECONNREFUSED'']"
  by (simp add: statuses_def api_stats_def broker_a_def world_simps)

text \<open>
  Claim C8, amended: in every state the statistics are \<^verbatim>\<open>success: true\<close>, \<^verbatim>\<open>activeDevices\<close>
  the size of the device map, \<^verbatim>\<open>totalScans\<close> the length of the scan log,
  \<^verbatim>\<open>mqttConnections\<close> the number of entries in the connection table, and \<^verbatim>\<open>timestamp\<close> the
  server's current time as an ISO string.
\<close>

theorem stats_fields:
  "success (api_stats now s) \<and>
   activeDevices (api_stats now s) = length (devices s) \<and>
   totalScans (api_stats now s) = length (rfidScans s) \<and>
   stats_mqttConnections (api_stats now s) = length (mqttConnections s) \<and>
   stats_timestamp (api_stats now s) = ISO now"
  by (simp add: api_stats_def)

theorem stats_fields_witness:
  "activeDevices (api_stats 12 (state (run runtime0 world0 registry_example))) = 1 \<and>
   totalScans (api_stats 12 (state (run runtime0 world0 registry_example))) = 1 \<and>
   stats_mqttConnections (api_stats 12 (state (run runtime0 world0 registry_example))) = 1 \<and>
   stats_timestamp (api_stats 12 (state (run runtime0 world0 registry_example))) = ISO 12"
proof -
  have "length (devices (state (run runtime0 world0 registry_example))) = 1"
    "length (rfidScans (state (run runtime0 world0 registry_example))) = 1"
    "length (mqttConnections (state (run runtime0 world0 registry_example))) = 1"
    by (simp_all add: registry_example_def broker_a_def gps_packet_def rfid_packet_def world_simps
        handler_simps)
  with stats_fields [of 12 "state (run runtime0 world0 registry_example)"] show ?thesis by simp
qed

subsection \<open>What a viewer receives\<close>
























end
